theory Spec2Isabelle
  imports Complex_Main "HOL-Library.Log_Nat"
begin

section \<open>Data model of the streak service\<close>

text \<open>
  The service (\<^verbatim>\<open>src/services/streak_service.py\<close>) reads three ORM classes. Only the
  columns the service touches are modelled. A calendar date is its day number (an
  \<open>int\<close>); the service only compares dates with \<open>==\<close> and \<open><=\<close>. A nullable boolean
  column is read by the service only through \<open>and\<close>, \<open>not\<close> and \<open>if\<close>, where Python's
  \<open>None\<close> acts as \<open>False\<close>; the flags are therefore \<open>bool\<close>. The stored streak columns
  are compared with \<open>!=\<close> against an int, where \<open>None\<close> differs from every int; they
  are \<open>int option\<close>.
\<close>

record User =
  id_user :: int
  workout_streak :: "int option"
  diet_streak :: "int option"

record UserPlan =
  id_plan :: int
  user_id :: int
  created_at :: int

record DailyPlanEntry =
  plan_id :: int
  date :: int
  is_exercise_day :: bool
  is_exercise_completed :: bool
  is_diet_completed :: bool

text \<open>
  The database session: the three tables, and the number of \<^verbatim>\<open>db.session.commit()\<close> calls
  made so far. \<open>user_rows\<close> is the identity map of \<^verbatim>\<open>User.query.get\<close>.
\<close>

record db =
  user_rows :: "int \<rightharpoonup> User"
  plan_rows :: "UserPlan list"
  entry_rows :: "DailyPlanEntry list"
  commits :: nat

text \<open>The returned dict \<^verbatim>\<open>{"workout": w, "diet": d}\<close>.\<close>

record streaks =
  workout :: int
  diet :: int

section \<open>The two queries\<close>

text \<open>
  \<^verbatim>\<open>UserPlan.query.filter_by(user_id=user.id).order_by(UserPlan.created_at.desc()).first()\<close>.
  The sort is stable, so rows with equal \<open>created_at\<close> keep their table order.
\<close>

definition latest_plan :: "db \<Rightarrow> int \<Rightarrow> UserPlan option" where
  "latest_plan s uid =
     (case sort_key (\<lambda>p. - created_at p) (filter (\<lambda>p. user_id p = uid) (plan_rows s)) of
        [] \<Rightarrow> None
      | p # _ \<Rightarrow> Some p)"

text \<open>
  \<^verbatim>\<open>DailyPlanEntry.query.filter_by(plan_id=plan.id).filter(DailyPlanEntry.date <= today)
      .order_by(DailyPlanEntry.date.desc()).all()\<close>
\<close>

definition load_entries :: "db \<Rightarrow> int \<Rightarrow> int \<Rightarrow> DailyPlanEntry list" where
  "load_entries s pid today =
     sort_key (\<lambda>e. - date e) (filter (\<lambda>e. plan_id e = pid \<and> date e \<le> today) (entry_rows s))"

section \<open>The scan\<close>

text \<open>Line 103 (and line 83 for the first entry): \<^verbatim>\<open>is_success_w\<close>.\<close>

definition is_success_w :: "DailyPlanEntry \<Rightarrow> bool" where
  "is_success_w e = ((is_exercise_day e \<and> is_exercise_completed e) \<or> \<not> is_exercise_day e)"

text \<open>
  Lines 98-113: \<^verbatim>\<open>for i in range(start_check_idx, len(entries))\<close>, run over the entries
  from \<open>start_check_idx\<close> on, with \<open>w_streak\<close> as accumulator; \<open>break\<close> returns it.
\<close>

fun workout_loop :: "DailyPlanEntry list \<Rightarrow> int \<Rightarrow> int" where
  "workout_loop [] w_streak = w_streak"
| "workout_loop (e # es) w_streak =
     (if is_success_w e then workout_loop es (w_streak + 1) else w_streak)"

text \<open>Lines 130-135: the diet loop, with \<open>d_streak_count\<close> as accumulator.\<close>

fun diet_loop :: "DailyPlanEntry list \<Rightarrow> int \<Rightarrow> int" where
  "diet_loop [] d_streak_count = d_streak_count"
| "diet_loop (e # es) d_streak_count =
     (if is_diet_completed e then diet_loop es (d_streak_count + 1) else d_streak_count)"

text \<open>
  Lines 79-135 on a non-empty \<open>entries\<close>, given as \<open>first_entry # rest\<close>. The variable
  \<open>d_streak\<close> of lines 63 and 92-93 is never read again and is left out.
\<close>

definition scan_entries :: "int \<Rightarrow> DailyPlanEntry \<Rightarrow> DailyPlanEntry list \<Rightarrow> streaks" where
  "scan_entries today first_entry rest =
     (let entries = first_entry # rest;
          workout_done = ((is_exercise_day first_entry \<and> is_exercise_completed first_entry)
                          \<or> \<not> is_exercise_day first_entry);
          w_streak = (if date first_entry = today \<and> workout_done then 1 else 0);
          start_check_idx = (if date first_entry = today then 1 else 0);
          w_streak_temp = workout_loop (drop start_check_idx entries) w_streak;
          d_streak_count = (if date first_entry = today \<and> is_diet_completed first_entry
                            then 1 else 0);
          d_streak_count = diet_loop (drop (if date first_entry = today then 1 else 0) entries)
                             d_streak_count
      in \<lparr>workout = w_streak_temp, diet = d_streak_count\<rparr>)"

section \<open>calculate_streaks and compute_streaks\<close>

text \<open>
  \<open>calculate_streaks today user s\<close> is the call \<^verbatim>\<open>calculate_streaks(user)\<close> made in session
  state \<open>s\<close> when \<^verbatim>\<open>datetime.utcnow().date()\<close> is \<open>today\<close>. It gives the returned dict, the
  \<open>user\<close> object after the call, and the session state after the call. Lines 138-141
  assign both fields of the object and commit, which stores the object under its key.
\<close>

definition calculate_streaks :: "int \<Rightarrow> User option \<Rightarrow> db \<Rightarrow> streaks \<times> User option \<times> db" where
  "calculate_streaks today user s =
     (case user of
        None \<Rightarrow> (\<lparr>workout = 0, diet = 0\<rparr>, None, s)
      | Some u \<Rightarrow>
          (case latest_plan s (id_user u) of
             None \<Rightarrow> (\<lparr>workout = 0, diet = 0\<rparr>, Some u, s)
           | Some plan \<Rightarrow>
               (case load_entries s (id_plan plan) today of
                  [] \<Rightarrow> (\<lparr>workout = 0, diet = 0\<rparr>, Some u, s)
                | first_entry # rest \<Rightarrow>
                    (let r = scan_entries today first_entry rest
                     in if Some (workout r) \<noteq> workout_streak u \<or> Some (diet r) \<noteq> diet_streak u
                        then (let u' = u\<lparr>workout_streak := Some (workout r),
                                          diet_streak := Some (diet r)\<rparr>
                              in (r, Some u',
                                  s\<lparr>user_rows := (user_rows s)(id_user u \<mapsto> u'),
                                    commits := commits s + 1\<rparr>))
                        else (r, Some u, s)))))"

text \<open>Lines 145-148: \<^verbatim>\<open>user = User.query.get(user_id); return calculate_streaks(user)\<close>.\<close>

definition compute_streaks :: "int \<Rightarrow> int \<Rightarrow> int \<Rightarrow> db \<Rightarrow> streaks \<times> User option \<times> db" where
  "compute_streaks today uid pid s = calculate_streaks today (user_rows s uid) s"

section \<open>Python floats\<close>

text \<open>
  \<^verbatim>\<open>estimate_transformation_days\<close> computes on Python floats, which are IEEE 754 binary64
  numbers. A finite double is modelled by its exact rational value; every arithmetic
  operation computes the exact result and rounds it to the nearest double, ties to even,
  as the hardware does. The sign of a zero is not modelled: the estimator only subtracts,
  takes \<^verbatim>\<open>abs\<close>, compares, divides by a positive constant, multiplies by 7 and truncates,
  and none of these tells \<^verbatim>\<open>-0.0\<close> from \<^verbatim>\<open>0.0\<close> in its outcome.
\<close>

datatype pyfloat = Finite rat | PosInf | NegInf | NaN

datatype py_error = OverflowError | ValueError | ZeroDivisionError

definition pow2 :: "int \<Rightarrow> rat" where
  "pow2 e = 2 powi e"

text \<open>For \<open>a > 0\<close>: the exponent \<open>e\<close> with \<open>2^e \<le> a < 2^(e+1)\<close>.\<close>

definition floor_log2 :: "rat \<Rightarrow> int" where
  "floor_log2 a =
     (let (p, q) = quotient_of a; d = bitlen p - bitlen q
      in if pow2 d \<le> a then d else d - 1)"

definition round_half_even :: "rat \<Rightarrow> int" where
  "round_half_even x =
     (let f = \<lfloor>x\<rfloor>; r = x - of_int f
      in if r < 1 / 2 then f else if 1 / 2 < r then f + 1 else if even f then f else f + 1)"

text \<open>
  Rounding to binary64: 53 significant bits, least normal exponent \<open>-1022\<close> (below it the
  spacing stays \<open>2^(-1074)\<close>: subnormals), overflow to infinity from \<open>2^1024\<close> on.
  \<open>round_magnitude a\<close> rounds \<open>a > 0\<close> on the grid of its binade.
\<close>

definition round_magnitude :: "rat \<Rightarrow> rat" where
  "round_magnitude a =
     (let e = max (floor_log2 a) (- 1022);
          u = pow2 (e - 52)
      in of_int (round_half_even (a / u)) * u)"

definition round_to_double :: "rat \<Rightarrow> pyfloat" where
  "round_to_double q =
     (if q = 0 then Finite 0
      else let r = round_magnitude \<bar>q\<bar>
           in if pow2 1024 \<le> r then (if 0 < q then PosInf else NegInf)
              else Finite (if 0 < q then r else - r))"

text \<open>A rational is (the value of) a double when rounding leaves it alone.\<close>

definition is_double :: "rat \<Rightarrow> bool" where
  "is_double q = (round_to_double q = Finite q)"

text \<open>\<^verbatim>\<open>x - y\<close>\<close>

fun fsub :: "pyfloat \<Rightarrow> pyfloat \<Rightarrow> pyfloat" where
  "fsub (Finite a) (Finite b) = round_to_double (a - b)"
| "fsub (Finite a) PosInf = NegInf"
| "fsub (Finite a) NegInf = PosInf"
| "fsub PosInf (Finite b) = PosInf"
| "fsub PosInf NegInf = PosInf"
| "fsub NegInf (Finite b) = NegInf"
| "fsub NegInf PosInf = NegInf"
| "fsub _ _ = NaN"

text \<open>\<^verbatim>\<open>abs(x)\<close>\<close>

fun fabs :: "pyfloat \<Rightarrow> pyfloat" where
  "fabs (Finite a) = Finite \<bar>a\<bar>"
| "fabs PosInf = PosInf"
| "fabs NegInf = PosInf"
| "fabs NaN = NaN"

text \<open>\<^verbatim>\<open>x < y\<close> and \<^verbatim>\<open>x <= y\<close>: false whenever an operand is a NaN.\<close>

fun flt :: "pyfloat \<Rightarrow> pyfloat \<Rightarrow> bool" where
  "flt (Finite a) (Finite b) = (a < b)"
| "flt (Finite a) PosInf = True"
| "flt NegInf (Finite b) = True"
| "flt NegInf PosInf = True"
| "flt _ _ = False"

fun fle :: "pyfloat \<Rightarrow> pyfloat \<Rightarrow> bool" where
  "fle (Finite a) (Finite b) = (a \<le> b)"
| "fle (Finite a) PosInf = True"
| "fle NegInf (Finite b) = True"
| "fle NegInf PosInf = True"
| "fle NegInf NegInf = True"
| "fle PosInf PosInf = True"
| "fle _ _ = False"

text \<open>\<^verbatim>\<open>x / y\<close>: Python raises \<^verbatim>\<open>ZeroDivisionError\<close> on a zero divisor, whatever \<open>x\<close> is.\<close>

fun fdiv :: "pyfloat \<Rightarrow> pyfloat \<Rightarrow> py_error + pyfloat" where
  "fdiv x (Finite b) =
     (if b = 0 then Inl ZeroDivisionError
      else case x of
             Finite a \<Rightarrow> Inr (round_to_double (a / b))
           | PosInf \<Rightarrow> Inr (if 0 < b then PosInf else NegInf)
           | NegInf \<Rightarrow> Inr (if 0 < b then NegInf else PosInf)
           | NaN \<Rightarrow> Inr NaN)"
| "fdiv (Finite a) PosInf = Inr (Finite 0)"
| "fdiv (Finite a) NegInf = Inr (Finite 0)"
| "fdiv _ _ = Inr NaN"

text \<open>\<^verbatim>\<open>x * y\<close>\<close>

fun fmul :: "pyfloat \<Rightarrow> pyfloat \<Rightarrow> pyfloat" where
  "fmul (Finite a) (Finite b) = round_to_double (a * b)"
| "fmul NaN _ = NaN"
| "fmul _ NaN = NaN"
| "fmul (Finite a) PosInf = (if a = 0 then NaN else if 0 < a then PosInf else NegInf)"
| "fmul (Finite a) NegInf = (if a = 0 then NaN else if 0 < a then NegInf else PosInf)"
| "fmul PosInf (Finite b) = (if b = 0 then NaN else if 0 < b then PosInf else NegInf)"
| "fmul NegInf (Finite b) = (if b = 0 then NaN else if 0 < b then NegInf else PosInf)"
| "fmul PosInf PosInf = PosInf"
| "fmul NegInf NegInf = PosInf"
| "fmul PosInf NegInf = NegInf"
| "fmul NegInf PosInf = NegInf"

text \<open>
  \<^verbatim>\<open>int(x)\<close>: truncation towards zero; \<^verbatim>\<open>OverflowError\<close> on an infinity, \<^verbatim>\<open>ValueError\<close> on
  a NaN.
\<close>

fun py_int :: "pyfloat \<Rightarrow> py_error + int" where
  "py_int (Finite a) = Inr (if 0 \<le> a then \<lfloor>a\<rfloor> else \<lceil>a\<rceil>)"
| "py_int PosInf = Inl OverflowError"
| "py_int NegInf = Inl OverflowError"
| "py_int NaN = Inl ValueError"

text \<open>A decimal float literal of the source denotes the double nearest to it.\<close>

definition float_literal :: "rat \<Rightarrow> pyfloat" where
  "float_literal q = round_to_double q"

section \<open>Strings\<close>

text \<open>
  \<^verbatim>\<open>str.lower()\<close> on the code points below 256, which is what a \<open>char\<close> holds: the
  letters A-Z, and the Latin-1 capitals U+00C0 to U+00DE without the multiplication sign
  U+00D7, move up by 32; every other code point stays.
\<close>

definition lower_char :: "char \<Rightarrow> char" where
  "lower_char c =
     (let n = (of_char c :: nat)
      in if (65 \<le> n \<and> n \<le> 90) \<or> (192 \<le> n \<and> n \<le> 222 \<and> n \<noteq> 215)
         then char_of (n + 32) else c)"

definition lower :: "string \<Rightarrow> string" where
  "lower s = map lower_char s"

section \<open>estimate_transformation_days\<close>

text \<open>
  Lines 7-39. \<open>weight\<close> and \<open>target\<close> are floats or \<^verbatim>\<open>None\<close>, \<open>goal\<close> is a string or
  \<^verbatim>\<open>None\<close> (\<^verbatim>\<open>goal or ""\<close> turns \<^verbatim>\<open>None\<close> into the empty string). The result is the returned
  int, or the exception that escapes.
\<close>

definition estimate_transformation_days ::
  "pyfloat option \<Rightarrow> pyfloat option \<Rightarrow> string option \<Rightarrow> py_error + int" where
  "estimate_transformation_days weight target goal =
     (case weight of
        None \<Rightarrow> Inr 0
      | Some w \<Rightarrow>
          (case target of
             None \<Rightarrow> Inr 0
           | Some t \<Rightarrow>
               (let delta = fsub t w;
                    kg_to_change = fabs delta
                in if flt kg_to_change (float_literal (1 / 10)) then Inr 0
                   else
                     (let goal_lower = lower (case goal of None \<Rightarrow> [] | Some g \<Rightarrow> g);
                          rate_per_week =
                            (if goal_lower \<in> set [''fat_loss'', ''lose'', ''weight_loss'']
                             then float_literal (55 / 100)
                             else if goal_lower \<in> set [''muscle_gain'', ''gain'', ''bulk'']
                             then float_literal (3 / 10)
                             else if goal_lower \<in> set [''recomposition'', ''recomp'']
                             then float_literal (2 / 10)
                             else float_literal (4 / 10))
                      in case fdiv kg_to_change rate_per_week of
                           Inl err \<Rightarrow> Inl err
                         | Inr weeks_needed \<Rightarrow>
                             (case py_int (fmul weeks_needed (Finite 7)) of
                                Inl err \<Rightarrow> Inl err
                              | Inr n \<Rightarrow> Inr (max 7 n))))))"

section \<open>The goal table in the words of the specification\<close>

text \<open>Two strings are equal up to case when they have the same lower-case form.\<close>

definition ci_equal :: "string \<Rightarrow> string \<Rightarrow> bool" where
  "ci_equal a b = (lower a = lower b)"

text \<open>
  The weekly rate of section 4.1: the goal, taken as empty when absent, is matched
  against each group of names without regard to case.
\<close>

definition spec_rate :: "string option \<Rightarrow> pyfloat" where
  "spec_rate goal =
     (let g = (case goal of None \<Rightarrow> [] | Some s \<Rightarrow> s)
      in if list_ex (ci_equal g) [''fat_loss'', ''lose'', ''weight_loss'']
         then float_literal (55 / 100)
         else if list_ex (ci_equal g) [''muscle_gain'', ''gain'', ''bulk'']
         then float_literal (3 / 10)
         else if list_ex (ci_equal g) [''recomposition'', ''recomp'']
         then float_literal (2 / 10)
         else float_literal (4 / 10))"

section \<open>What the scan can see\<close>

text \<open>The three flags of an entry, and whether the newest loaded entry is dated today.\<close>

definition flags :: "DailyPlanEntry \<Rightarrow> bool \<times> bool \<times> bool" where
  "flags e = (is_exercise_day e, is_exercise_completed e, is_diet_completed e)"

definition newest_is_today :: "int \<Rightarrow> DailyPlanEntry list \<Rightarrow> bool" where
  "newest_is_today today es = (case es of [] \<Rightarrow> False | e # _ \<Rightarrow> date e = today)"

section \<open>Example data\<close>

text \<open>
  The scenarios of section 8 of the specification, as one database. User 1 has an old
  plan 10 and a newer plan 11. Plan 11 has an entry for today (an exercise day, exercise
  and diet both open), for yesterday (a rest day, diet done), for the day before (an
  exercise day, exercise done, diet missed) and for tomorrow. The rows are stored out of
  order. User 2 has no plan; user 3 has plan 12, which has no entry up to today.
\<close>

definition ex_today :: int where
  "ex_today = 19000"

definition ex_user :: User where
  "ex_user = \<lparr>id_user = 1, workout_streak = None, diet_streak = None\<rparr>"

definition ex_user_current :: User where
  "ex_user_current = \<lparr>id_user = 1, workout_streak = Some 2, diet_streak = Some 1\<rparr>"

definition ex_user_noplan :: User where
  "ex_user_noplan = \<lparr>id_user = 2, workout_streak = Some 5, diet_streak = Some 4\<rparr>"

definition ex_user_noentries :: User where
  "ex_user_noentries = \<lparr>id_user = 3, workout_streak = Some 5, diet_streak = Some 4\<rparr>"

definition ex_plan :: UserPlan where
  "ex_plan = \<lparr>id_plan = 11, user_id = 1, created_at = 200\<rparr>"

definition ex_plan_empty :: UserPlan where
  "ex_plan_empty = \<lparr>id_plan = 12, user_id = 3, created_at = 50\<rparr>"

definition e_today :: DailyPlanEntry where
  "e_today = \<lparr>plan_id = 11, date = 19000, is_exercise_day = True,
               is_exercise_completed = False, is_diet_completed = False\<rparr>"

definition e_yesterday :: DailyPlanEntry where
  "e_yesterday = \<lparr>plan_id = 11, date = 18999, is_exercise_day = False,
                   is_exercise_completed = False, is_diet_completed = True\<rparr>"

definition e_before :: DailyPlanEntry where
  "e_before = \<lparr>plan_id = 11, date = 18998, is_exercise_day = True,
                is_exercise_completed = True, is_diet_completed = False\<rparr>"

definition ex_db :: db where
  "ex_db =
     \<lparr>user_rows = [1 \<mapsto> ex_user, 2 \<mapsto> ex_user_noplan, 3 \<mapsto> ex_user_noentries],
      plan_rows = [\<lparr>id_plan = 10, user_id = 1, created_at = 100\<rparr>, ex_plan, ex_plan_empty],
      entry_rows =
        [e_before,
         \<lparr>plan_id = 10, date = 19000, is_exercise_day = True,
          is_exercise_completed = True, is_diet_completed = True\<rparr>,
         e_today,
         \<lparr>plan_id = 11, date = 19001, is_exercise_day = True,
          is_exercise_completed = True, is_diet_completed = True\<rparr>,
         \<lparr>plan_id = 12, date = 19002, is_exercise_day = True,
          is_exercise_completed = True, is_diet_completed = True\<rparr>,
         e_yesterday],
      commits = 0\<rparr>"

text \<open>The example database after the streaks of user 1 were stored.\<close>

definition ex_db_current :: db where
  "ex_db_current = ex_db\<lparr>user_rows := (user_rows ex_db)(1 \<mapsto> ex_user_current), commits := 1\<rparr>"

text \<open>
  The same flags on dates with gaps: today, four days ago, and three weeks ago, in a plan
  of another user, in a database where today is another day.
\<close>

definition g_today :: DailyPlanEntry where
  "g_today = \<lparr>plan_id = 7, date = 20000, is_exercise_day = True,
               is_exercise_completed = False, is_diet_completed = False\<rparr>"

definition g_gap1 :: DailyPlanEntry where
  "g_gap1 = \<lparr>plan_id = 7, date = 19996, is_exercise_day = False,
              is_exercise_completed = False, is_diet_completed = True\<rparr>"

definition g_gap2 :: DailyPlanEntry where
  "g_gap2 = \<lparr>plan_id = 7, date = 19979, is_exercise_day = True,
              is_exercise_completed = True, is_diet_completed = False\<rparr>"

definition gap_user :: User where
  "gap_user = \<lparr>id_user = 4, workout_streak = Some 0, diet_streak = None\<rparr>"

definition gap_plan :: UserPlan where
  "gap_plan = \<lparr>id_plan = 7, user_id = 4, created_at = 1\<rparr>"

definition gap_db :: db where
  "gap_db =
     \<lparr>user_rows = [4 \<mapsto> gap_user],
      plan_rows = [gap_plan],
      entry_rows = [g_gap2, g_today, g_gap1],
      commits = 3\<rparr>"

section \<open>Properties of the loops\<close>

lemma workout_loop_takeWhile:
  "workout_loop es w = w + int (length (takeWhile is_success_w es))"
  by (induction es arbitrary: w) simp_all

lemma diet_loop_takeWhile:
  "diet_loop es d = d + int (length (takeWhile is_diet_completed es))"
  by (induction es arbitrary: d) simp_all

lemma workout_scan_pending:
  assumes "date e = today" "is_exercise_day e" "\<not> is_exercise_completed e"
  shows "workout (scan_entries today e es) = int (length (takeWhile is_success_w es))"
  using assms by (simp add: scan_entries_def workout_loop_takeWhile)

lemma diet_scan_pending:
  assumes "date e = today" "\<not> is_diet_completed e"
  shows "diet (scan_entries today e es) = int (length (takeWhile is_diet_completed es))"
  using assms by (simp add: scan_entries_def diet_loop_takeWhile)

lemma calculate_streaks_full_path:
  assumes "latest_plan s (id_user u) = Some p"
    and "load_entries s (id_plan p) today = e # es"
  shows "fst (calculate_streaks today (Some u) s) = scan_entries today e es"
  using assms by (simp add: calculate_streaks_def Let_def)

lemma ex_latest_plan: "latest_plan ex_db 1 = Some ex_plan"
  by code_simp

lemma ex_load_entries: "load_entries ex_db 11 ex_today = [e_today, e_yesterday, e_before]"
  by code_simp

lemma ex_scan: "scan_entries ex_today e_today [e_yesterday, e_before] = \<lparr>workout = 2, diet = 1\<rparr>"
  by code_simp

lemma latest_plan_frame:
  "latest_plan (s\<lparr>user_rows := m, commits := c\<rparr>) uid = latest_plan s uid"
  by (simp add: latest_plan_def)

lemma load_entries_frame:
  "load_entries (s\<lparr>user_rows := m, commits := c\<rparr>) pid today = load_entries s pid today"
  by (simp add: load_entries_def)

lemma scan_entries_workout_bounds:
  "0 \<le> workout (scan_entries today e es) \<and> workout (scan_entries today e es) \<le> 1 + int (length es)"
proof -
  have "length (takeWhile is_success_w es) \<le> length es"
    by (rule length_takeWhile_le)
  moreover have "length (takeWhile is_success_w (e # es)) \<le> length (e # es)"
    by (rule length_takeWhile_le)
  ultimately show ?thesis
    by (simp add: scan_entries_def workout_loop_takeWhile is_success_w_def)
qed

lemma scan_entries_diet_bounds:
  "0 \<le> diet (scan_entries today e es) \<and> diet (scan_entries today e es) \<le> 1 + int (length es)"
proof -
  have "length (takeWhile is_diet_completed es) \<le> length es"
    by (rule length_takeWhile_le)
  moreover have "length (takeWhile is_diet_completed (e # es)) \<le> length (e # es)"
    by (rule length_takeWhile_le)
  ultimately show ?thesis
    by (simp add: scan_entries_def diet_loop_takeWhile)
qed

lemma takeWhile_flags:
  assumes "map flags xs = map flags ys" and "\<And>x. P x = Q (flags x)"
  shows "length (takeWhile P xs) = length (takeWhile P ys)"
proof -
  have "P = Q \<circ> flags"
    using assms(2) by (simp add: fun_eq_iff)
  then have "\<And>zs. length (takeWhile P zs) = length (takeWhile Q (map flags zs))"
    by (simp add: takeWhile_map)
  then show ?thesis
    using assms(1) by simp
qed

lemma workout_loop_flags:
  assumes "map flags xs = map flags ys"
  shows "workout_loop xs w = workout_loop ys w"
proof -
  have "length (takeWhile is_success_w xs) = length (takeWhile is_success_w ys)"
    using assms
    by (rule takeWhile_flags [where Q = "\<lambda>(d, c, _). (d \<and> c) \<or> \<not> d"])
       (simp add: flags_def is_success_w_def)
  then show ?thesis
    by (simp add: workout_loop_takeWhile)
qed

lemma diet_loop_flags:
  assumes "map flags xs = map flags ys"
  shows "diet_loop xs d = diet_loop ys d"
proof -
  have "length (takeWhile is_diet_completed xs) = length (takeWhile is_diet_completed ys)"
    using assms
    by (rule takeWhile_flags [where Q = "\<lambda>(_, _, dc). dc"]) (simp add: flags_def)
  then show ?thesis
    by (simp add: diet_loop_takeWhile)
qed

lemma scan_entries_flags:
  assumes "flags e1 = flags e2" and "map flags es1 = map flags es2"
    and "(date e1 = today1) = (date e2 = today2)"
  shows "scan_entries today1 e1 es1 = scan_entries today2 e2 es2"
proof -
  have all: "map flags (e1 # es1) = map flags (e2 # es2)"
    using assms(1,2) by simp
  have f: "is_exercise_day e1 = is_exercise_day e2"
    "is_exercise_completed e1 = is_exercise_completed e2"
    "is_diet_completed e1 = is_diet_completed e2"
    using assms(1) by (simp_all add: flags_def)
  show ?thesis
  proof (cases "date e1 = today1")
    case True
    then have "date e2 = today2"
      using assms(3) by simp
    with True show ?thesis
      using workout_loop_flags [OF assms(2)] diet_loop_flags [OF assms(2)] f
      by (simp add: scan_entries_def)
  next
    case False
    then have "date e2 \<noteq> today2"
      using assms(3) by simp
    with False show ?thesis
      using workout_loop_flags [OF all] diet_loop_flags [OF all]
      by (simp add: scan_entries_def)
  qed
qed

lemma gap_latest_plan: "latest_plan gap_db 4 = Some gap_plan"
  by code_simp

lemma gap_load_entries: "load_entries gap_db 7 20000 = [g_today, g_gap1, g_gap2]"
  by code_simp

lemma ex_first_call:
  "calculate_streaks ex_today (Some ex_user) ex_db =
     (\<lparr>workout = 2, diet = 1\<rparr>, Some ex_user_current, ex_db_current)"
proof -
  have "latest_plan ex_db (id_user ex_user) = Some ex_plan"
    using ex_latest_plan by (simp add: ex_user_def)
  moreover have "load_entries ex_db (id_plan ex_plan) ex_today = [e_today, e_yesterday, e_before]"
    using ex_load_entries by (simp add: ex_plan_def)
  moreover have "commits ex_db = 0"
    by (simp add: ex_db_def)
  ultimately show ?thesis
    using ex_scan
    by (simp add: calculate_streaks_def Let_def ex_user_def ex_user_current_def ex_db_current_def)
qed

section \<open>Claims about the streak calculator\<close>

text \<open>
  C1. When the newest loaded entry is dated today and is an exercise day that is not
  completed, the workout streak is the number of successful entries at the head of the
  older entries (a rest day, or an exercise day that is completed, is a success): today
  is not counted and does not end the scan, and the first unsuccessful older entry does.
  On the entries of the specification's example the streak is 2.
\<close>

theorem workout_pending_today:
  assumes "latest_plan s (id_user u) = Some p"
    and "load_entries s (id_plan p) today = e # es"
    and "date e = today"
    and "is_exercise_day e"
    and "\<not> is_exercise_completed e"
  shows "workout (fst (calculate_streaks today (Some u) s)) =
           int (length (takeWhile (\<lambda>x. \<not> is_exercise_day x \<or>
                                         (is_exercise_day x \<and> is_exercise_completed x)) es))"
proof -
  have same: "is_success_w = (\<lambda>x. \<not> is_exercise_day x \<or>
                                   (is_exercise_day x \<and> is_exercise_completed x))"
    by (auto simp: is_success_w_def fun_eq_iff)
  have "fst (calculate_streaks today (Some u) s) = scan_entries today e es"
    using assms(1,2) by (rule calculate_streaks_full_path)
  then show ?thesis
    using workout_scan_pending [OF assms(3,4,5), of es] by (simp add: same)
qed

theorem workout_pending_today_witness:
  "latest_plan ex_db (id_user ex_user) = Some ex_plan \<and>
   load_entries ex_db (id_plan ex_plan) ex_today = [e_today, e_yesterday, e_before] \<and>
   date e_today = ex_today \<and> is_exercise_day e_today \<and> \<not> is_exercise_completed e_today \<and>
   workout (fst (calculate_streaks ex_today (Some ex_user) ex_db)) = 2"
proof -
  have h1: "latest_plan ex_db (id_user ex_user) = Some ex_plan"
    using ex_latest_plan by (simp add: ex_user_def)
  have h2: "load_entries ex_db (id_plan ex_plan) ex_today = e_today # [e_yesterday, e_before]"
    using ex_load_entries by (simp add: ex_plan_def)
  have h3: "date e_today = ex_today"
    by (simp add: e_today_def ex_today_def)
  have h4: "is_exercise_day e_today"
    by (simp add: e_today_def)
  have h5: "\<not> is_exercise_completed e_today"
    by (simp add: e_today_def)
  have "workout (fst (calculate_streaks ex_today (Some ex_user) ex_db)) = 2"
    using workout_pending_today [OF h1 h2 h3 h4 h5] by (simp add: e_yesterday_def e_before_def)
  with h1 h2 h3 h4 h5 show ?thesis
    by simp
qed

text \<open>
  C2. When the newest loaded entry is dated today and its diet is not completed, the
  diet streak is the number of entries with the diet completed at the head of the list
  from index 1 on: today is left out without ending the scan. On the entries of the
  specification's example the streak is 1.
\<close>

theorem diet_pending_today:
  assumes "latest_plan s (id_user u) = Some p"
    and "load_entries s (id_plan p) today = e # es"
    and "date e = today"
    and "\<not> is_diet_completed e"
  shows "diet (fst (calculate_streaks today (Some u) s)) =
           int (length (takeWhile is_diet_completed (drop 1 (e # es))))"
proof -
  have "fst (calculate_streaks today (Some u) s) = scan_entries today e es"
    using assms(1,2) by (rule calculate_streaks_full_path)
  then show ?thesis
    using diet_scan_pending [OF assms(3,4), of es] by simp
qed

theorem diet_pending_today_witness:
  "latest_plan ex_db (id_user ex_user) = Some ex_plan \<and>
   load_entries ex_db (id_plan ex_plan) ex_today = [e_today, e_yesterday, e_before] \<and>
   date e_today = ex_today \<and> \<not> is_diet_completed e_today \<and>
   diet (fst (calculate_streaks ex_today (Some ex_user) ex_db)) = 1"
proof -
  have h1: "latest_plan ex_db (id_user ex_user) = Some ex_plan"
    using ex_latest_plan by (simp add: ex_user_def)
  have h2: "load_entries ex_db (id_plan ex_plan) ex_today = e_today # [e_yesterday, e_before]"
    using ex_load_entries by (simp add: ex_plan_def)
  have h3: "date e_today = ex_today"
    by (simp add: e_today_def ex_today_def)
  have h4: "\<not> is_diet_completed e_today"
    by (simp add: e_today_def)
  have "diet (fst (calculate_streaks ex_today (Some ex_user) ex_db)) = 1"
    using diet_pending_today [OF h1 h2 h3 h4] by (simp add: e_yesterday_def e_before_def)
  with h1 h2 h3 h4 show ?thesis
    by simp
qed

text \<open>
  C4. On the full path (user present, plan found, some entry loaded) the call returns
  the scanned counts. When the counts differ from the stored pair, both fields of the
  user are overwritten, the user is stored and exactly one commit is made; when they are
  equal, the user and the session are left as they were.
\<close>

theorem conditional_persistence:
  assumes "latest_plan s (id_user u) = Some p"
    and "load_entries s (id_plan p) today = e # es"
  shows "case calculate_streaks today (Some u) s of
           (r, user', s') \<Rightarrow>
             r = scan_entries today e es \<and>
             (if (Some (workout r), Some (diet r)) \<noteq> (workout_streak u, diet_streak u)
              then user' = Some (u\<lparr>workout_streak := Some (workout r),
                                     diet_streak := Some (diet r)\<rparr>) \<and>
                   s' = s\<lparr>user_rows := (user_rows s)(id_user u := user'),
                          commits := commits s + 1\<rparr>
              else user' = Some u \<and> s' = s)"
  using assms by (simp add: calculate_streaks_def Let_def)

theorem conditional_persistence_witness:
  "latest_plan ex_db (id_user ex_user) = Some ex_plan \<and>
   load_entries ex_db (id_plan ex_plan) ex_today = [e_today, e_yesterday, e_before] \<and>
   calculate_streaks ex_today (Some ex_user) ex_db =
     (\<lparr>workout = 2, diet = 1\<rparr>, Some ex_user_current, ex_db_current) \<and>
   latest_plan ex_db_current (id_user ex_user_current) = Some ex_plan \<and>
   load_entries ex_db_current (id_plan ex_plan) ex_today = [e_today, e_yesterday, e_before] \<and>
   calculate_streaks ex_today (Some ex_user_current) ex_db_current =
     (\<lparr>workout = 2, diet = 1\<rparr>, Some ex_user_current, ex_db_current)"
proof -
  have h1: "latest_plan ex_db (id_user ex_user) = Some ex_plan"
    using ex_latest_plan by (simp add: ex_user_def)
  have h2: "load_entries ex_db (id_plan ex_plan) ex_today = e_today # [e_yesterday, e_before]"
    using ex_load_entries by (simp add: ex_plan_def)
  have k1: "latest_plan ex_db_current (id_user ex_user_current) = Some ex_plan"
    using ex_latest_plan by (simp add: ex_db_current_def latest_plan_frame ex_user_current_def)
  have k2: "load_entries ex_db_current (id_plan ex_plan) ex_today
              = e_today # [e_yesterday, e_before]"
    using ex_load_entries by (simp add: ex_db_current_def load_entries_frame ex_plan_def)
  have c: "commits ex_db = 0"
    by (simp add: ex_db_def)
  have first: "calculate_streaks ex_today (Some ex_user) ex_db =
     (\<lparr>workout = 2, diet = 1\<rparr>, Some ex_user_current, ex_db_current)"
    using conditional_persistence [OF h1 h2] c
    by (auto simp: ex_scan ex_user_def ex_user_current_def ex_db_current_def
             split: prod.splits)
  have second: "calculate_streaks ex_today (Some ex_user_current) ex_db_current =
     (\<lparr>workout = 2, diet = 1\<rparr>, Some ex_user_current, ex_db_current)"
    using conditional_persistence [OF k1 k2]
    by (auto simp: ex_scan ex_user_current_def split: prod.splits)
  from h1 h2 k1 k2 first second show ?thesis
    by simp
qed

text \<open>
  C5. With no user, with a user that has no plan, and with a plan that has no entry up
  to today, the call returns 0 for both streaks and leaves the user and the session as
  they were: nothing is written, nothing is committed. The model of the call has no
  exception on these paths, as the source has none.
\<close>

theorem absent_input_defaults:
  "calculate_streaks today None s = (\<lparr>workout = 0, diet = 0\<rparr>, None, s) \<and>
   (latest_plan s (id_user u) = None \<longrightarrow>
      calculate_streaks today (Some u) s = (\<lparr>workout = 0, diet = 0\<rparr>, Some u, s)) \<and>
   (latest_plan s (id_user u) = Some p \<and> load_entries s (id_plan p) today = [] \<longrightarrow>
      calculate_streaks today (Some u) s = (\<lparr>workout = 0, diet = 0\<rparr>, Some u, s))"
  by (simp add: calculate_streaks_def)

theorem absent_input_defaults_witness:
  "calculate_streaks ex_today None ex_db = (\<lparr>workout = 0, diet = 0\<rparr>, None, ex_db) \<and>
   latest_plan ex_db (id_user ex_user_noplan) = None \<and>
   calculate_streaks ex_today (Some ex_user_noplan) ex_db =
     (\<lparr>workout = 0, diet = 0\<rparr>, Some ex_user_noplan, ex_db) \<and>
   latest_plan ex_db (id_user ex_user_noentries) = Some ex_plan_empty \<and>
   load_entries ex_db (id_plan ex_plan_empty) ex_today = [] \<and>
   calculate_streaks ex_today (Some ex_user_noentries) ex_db =
     (\<lparr>workout = 0, diet = 0\<rparr>, Some ex_user_noentries, ex_db)"
proof -
  have n: "latest_plan ex_db (id_user ex_user_noplan) = None"
    by code_simp
  have p: "latest_plan ex_db (id_user ex_user_noentries) = Some ex_plan_empty"
    by code_simp
  have e: "load_entries ex_db (id_plan ex_plan_empty) ex_today = []"
    by code_simp
  have a: "calculate_streaks ex_today None ex_db = (\<lparr>workout = 0, diet = 0\<rparr>, None, ex_db)"
    using absent_input_defaults [of ex_today ex_db ex_user_noplan ex_plan] by simp
  have b: "calculate_streaks ex_today (Some ex_user_noplan) ex_db =
     (\<lparr>workout = 0, diet = 0\<rparr>, Some ex_user_noplan, ex_db)"
    using absent_input_defaults [of ex_today ex_db ex_user_noplan ex_plan] n by simp
  have c: "calculate_streaks ex_today (Some ex_user_noentries) ex_db =
     (\<lparr>workout = 0, diet = 0\<rparr>, Some ex_user_noentries, ex_db)"
    using absent_input_defaults [of ex_today ex_db ex_user_noentries ex_plan_empty] p e by simp
  from n p e a b c show ?thesis
    by simp
qed



text \<open>
  C7. The counts depend only on the sequence of flag triples of the loaded entries and
  on whether the newest loaded entry is dated today. Two users, in two databases and on
  two days, whose loaded entries agree on these get the same counts, whatever the dates
  of the entries are; a missing calendar day changes nothing.
\<close>

theorem gap_invisible:
  assumes "latest_plan s1 (id_user u1) = Some p1"
    and "latest_plan s2 (id_user u2) = Some p2"
    and "map flags (load_entries s1 (id_plan p1) today1) =
         map flags (load_entries s2 (id_plan p2) today2)"
    and "newest_is_today today1 (load_entries s1 (id_plan p1) today1) =
         newest_is_today today2 (load_entries s2 (id_plan p2) today2)"
  shows "fst (calculate_streaks today1 (Some u1) s1) = fst (calculate_streaks today2 (Some u2) s2)"
proof (cases "load_entries s1 (id_plan p1) today1")
  case Nil
  then have "load_entries s2 (id_plan p2) today2 = []"
    using assms(3) by simp
  with Nil assms(1,2) show ?thesis
    by (simp add: calculate_streaks_def)
next
  case c1: (Cons e1 es1)
  then obtain e2 es2 where c2: "load_entries s2 (id_plan p2) today2 = e2 # es2"
    using assms(3) by (cases "load_entries s2 (id_plan p2) today2") auto
  have "flags e1 = flags e2" "map flags es1 = map flags es2"
    using assms(3) c1 c2 by simp_all
  moreover have "(date e1 = today1) = (date e2 = today2)"
    using assms(4) c1 c2 by (simp add: newest_is_today_def)
  ultimately have "scan_entries today1 e1 es1 = scan_entries today2 e2 es2"
    by (rule scan_entries_flags)
  then show ?thesis
    using calculate_streaks_full_path [OF assms(1) c1] calculate_streaks_full_path [OF assms(2) c2]
    by simp
qed

theorem gap_invisible_witness:
  "latest_plan ex_db (id_user ex_user) = Some ex_plan \<and>
   latest_plan gap_db (id_user gap_user) = Some gap_plan \<and>
   load_entries gap_db (id_plan gap_plan) 20000 = [g_today, g_gap1, g_gap2] \<and>
   map date (load_entries gap_db (id_plan gap_plan) 20000) = [20000, 19996, 19979] \<and>
   map flags (load_entries ex_db (id_plan ex_plan) ex_today) =
     map flags (load_entries gap_db (id_plan gap_plan) 20000) \<and>
   newest_is_today ex_today (load_entries ex_db (id_plan ex_plan) ex_today) =
     newest_is_today 20000 (load_entries gap_db (id_plan gap_plan) 20000) \<and>
   fst (calculate_streaks ex_today (Some ex_user) ex_db) =
     fst (calculate_streaks 20000 (Some gap_user) gap_db) \<and>
   fst (calculate_streaks 20000 (Some gap_user) gap_db) = \<lparr>workout = 2, diet = 1\<rparr>"
proof -
  have h1: "latest_plan ex_db (id_user ex_user) = Some ex_plan"
    using ex_latest_plan by (simp add: ex_user_def)
  have h2: "latest_plan gap_db (id_user gap_user) = Some gap_plan"
    using gap_latest_plan by (simp add: gap_user_def)
  have l1: "load_entries ex_db (id_plan ex_plan) ex_today = [e_today, e_yesterday, e_before]"
    using ex_load_entries by (simp add: ex_plan_def)
  have l2: "load_entries gap_db (id_plan gap_plan) 20000 = [g_today, g_gap1, g_gap2]"
    using gap_load_entries by (simp add: gap_plan_def)
  have d: "map date [g_today, g_gap1, g_gap2] = [20000, 19996, 19979]"
    by (simp add: g_today_def g_gap1_def g_gap2_def)
  have h3: "map flags (load_entries ex_db (id_plan ex_plan) ex_today) =
     map flags (load_entries gap_db (id_plan gap_plan) 20000)"
    unfolding l1 l2
    by (simp add: flags_def e_today_def e_yesterday_def e_before_def
        g_today_def g_gap1_def g_gap2_def)
  have h4: "newest_is_today ex_today (load_entries ex_db (id_plan ex_plan) ex_today) =
     newest_is_today 20000 (load_entries gap_db (id_plan gap_plan) 20000)"
    unfolding l1 l2 by (simp add: newest_is_today_def e_today_def g_today_def ex_today_def)
  have eq: "fst (calculate_streaks ex_today (Some ex_user) ex_db) =
     fst (calculate_streaks 20000 (Some gap_user) gap_db)"
    using gap_invisible [OF h1 h2 h3 h4] .
  have "fst (calculate_streaks ex_today (Some ex_user) ex_db) = \<lparr>workout = 2, diet = 1\<rparr>"
    using calculate_streaks_full_path [OF h1, of ex_today e_today "[e_yesterday, e_before]"] l1 ex_scan
    by simp
  with eq have v: "fst (calculate_streaks 20000 (Some gap_user) gap_db) = \<lparr>workout = 2, diet = 1\<rparr>"
    by simp
  from h1 h2 l2 d h3 h4 eq v show ?thesis
    by simp
qed

text \<open>
  C8. \<^verbatim>\<open>compute_streaks\<close> gives the same result and the same state for any two values
  of \<open>plan_id\<close>: it is \<^verbatim>\<open>calculate_streaks\<close> on the user found under \<open>user_id\<close>, which
  resolves the latest plan itself.
\<close>

theorem wrapper_ignores_plan_id:
  "compute_streaks today uid p1 s = compute_streaks today uid p2 s \<and>
   compute_streaks today uid p1 s = calculate_streaks today (user_rows s uid) s"
  by (simp add: compute_streaks_def)

theorem wrapper_ignores_plan_id_witness:
  "compute_streaks ex_today 1 10 ex_db = compute_streaks ex_today 1 11 ex_db \<and>
   compute_streaks ex_today 1 10 ex_db =
     (\<lparr>workout = 2, diet = 1\<rparr>, Some ex_user_current, ex_db_current)"
proof -
  have u: "user_rows ex_db 1 = Some ex_user"
    by (simp add: ex_db_def)
  have "calculate_streaks ex_today (Some ex_user) ex_db =
     (\<lparr>workout = 2, diet = 1\<rparr>, Some ex_user_current, ex_db_current)"
    by (rule ex_first_call)
  then have c: "calculate_streaks ex_today (user_rows ex_db 1) ex_db =
     (\<lparr>workout = 2, diet = 1\<rparr>, Some ex_user_current, ex_db_current)"
    using u by simp
  have a: "compute_streaks ex_today 1 10 ex_db = compute_streaks ex_today 1 11 ex_db"
    and b: "compute_streaks ex_today 1 10 ex_db =
              calculate_streaks ex_today (user_rows ex_db 1) ex_db"
    using wrapper_ignores_plan_id [of ex_today 1 10 ex_db 11] by blast+
  from a b c show ?thesis
    by simp
qed

text \<open>
  C10. When the plan of the user has some entry loaded, both returned counts lie between
  0 and the number of loaded entries.
\<close>

theorem streak_bounds:
  assumes "latest_plan s (id_user u) = Some p"
    and "load_entries s (id_plan p) today \<noteq> []"
  shows "0 \<le> workout (fst (calculate_streaks today (Some u) s)) \<and>
         workout (fst (calculate_streaks today (Some u) s))
           \<le> int (length (load_entries s (id_plan p) today)) \<and>
         0 \<le> diet (fst (calculate_streaks today (Some u) s)) \<and>
         diet (fst (calculate_streaks today (Some u) s))
           \<le> int (length (load_entries s (id_plan p) today))"
proof -
  obtain e es where l: "load_entries s (id_plan p) today = e # es"
    using assms(2) by (cases "load_entries s (id_plan p) today") auto
  have "fst (calculate_streaks today (Some u) s) = scan_entries today e es"
    using assms(1) l by (rule calculate_streaks_full_path)
  then show ?thesis
    using scan_entries_workout_bounds [of today e es] scan_entries_diet_bounds [of today e es] l
    by simp
qed

theorem streak_bounds_witness:
  "latest_plan ex_db (id_user ex_user) = Some ex_plan \<and>
   load_entries ex_db (id_plan ex_plan) ex_today \<noteq> [] \<and>
   length (load_entries ex_db (id_plan ex_plan) ex_today) = 3 \<and>
   0 \<le> workout (fst (calculate_streaks ex_today (Some ex_user) ex_db)) \<and>
   workout (fst (calculate_streaks ex_today (Some ex_user) ex_db)) \<le> 3 \<and>
   0 \<le> diet (fst (calculate_streaks ex_today (Some ex_user) ex_db)) \<and>
   diet (fst (calculate_streaks ex_today (Some ex_user) ex_db)) \<le> 3"
proof -
  have h1: "latest_plan ex_db (id_user ex_user) = Some ex_plan"
    using ex_latest_plan by (simp add: ex_user_def)
  have l: "load_entries ex_db (id_plan ex_plan) ex_today = [e_today, e_yesterday, e_before]"
    using ex_load_entries by (simp add: ex_plan_def)
  then have h2: "load_entries ex_db (id_plan ex_plan) ex_today \<noteq> []"
    by simp
  from streak_bounds [OF h1 h2] h1 h2 l show ?thesis
    by simp
qed

section \<open>Properties of rounding\<close>

lemma pow2_code [code]:
  "pow2 e = (if e < 0 then 1 / pow2 (- e)
             else if e = 0 then 1
             else if even e then (let h = pow2 (e div 2) in h * h)
             else 2 * pow2 (e - 1))"
proof -
  have ev: "(2::rat) powi e = 2 powi (e div 2) * 2 powi (e div 2)" if "even e"
    using that by (auto simp flip: power_int_add elim!: evenE)
  have od: "(2::rat) powi e = 2 * 2 powi (e - 1)"
    by (metis power_int_add_1' zero_neq_numeral diff_add_cancel)
  show ?thesis
    using ev od by (simp add: pow2_def Let_def power_int_minus_divide power_int_minus)
qed

lemma pow2_pos: "0 < pow2 e"
  by (simp add: pow2_def power_int_def)

lemma pow2_add: "pow2 (a + b) = pow2 a * pow2 b"
  by (simp add: pow2_def power_int_add)

lemma pow2_mono: "a \<le> b \<Longrightarrow> pow2 a \<le> pow2 b"
  by (simp add: pow2_def power_int_increasing)

lemma pow2_strict_mono: "a < b \<Longrightarrow> pow2 a < pow2 b"
  by (simp add: pow2_def power_int_strict_increasing)

lemma pow2_less_cancel: "pow2 a < pow2 b \<Longrightarrow> a < b"
  using pow2_mono [of b a] by (cases "a < b") auto

lemma pow2_of_nat: "pow2 (int n) = 2 ^ n"
  by (simp add: pow2_def)

lemma pow2_diff: "pow2 (a - b) = pow2 a / pow2 b"
  by (simp add: pow2_def power_int_diff)

lemma bitlen_pow2_bounds:
  assumes "0 < (n::int)"
  shows "pow2 (bitlen n - 1) \<le> of_int n" and "of_int n < pow2 (bitlen n)"
proof -
  have b: "2 ^ nat (bitlen n - 1) \<le> n" "n < 2 ^ nat (bitlen n)"
    using bitlen_bounds [OF assms] by simp_all
  have ge1: "1 \<le> bitlen n"
    using assms bitlen_eq_zero_iff [of n] bitlen_nonneg [of n] by linarith
  have "pow2 (bitlen n - 1) = of_int (2 ^ nat (bitlen n - 1))"
    using ge1 by (simp add: pow2_def power_int_def)
  also have "\<dots> \<le> of_int n"
    using b(1) by (simp only: of_int_le_iff)
  finally show "pow2 (bitlen n - 1) \<le> of_int n" .
  have "(of_int n :: rat) < of_int (2 ^ nat (bitlen n))"
    using b(2) by (simp only: of_int_less_iff)
  also have "\<dots> = pow2 (bitlen n)"
    using ge1 by (simp add: pow2_def power_int_def)
  finally show "of_int n < pow2 (bitlen n)" .
qed

lemma floor_log2_bounds:
  assumes "0 < a"
  shows "pow2 (floor_log2 a) \<le> a" and "a < pow2 (floor_log2 a + 1)"
proof -
  obtain p q where pq: "quotient_of a = (p, q)"
    by (cases "quotient_of a")
  have q: "0 < q"
    using pq by (rule quotient_of_denom_pos)
  have a: "a = of_int p / of_int q"
    using pq by (rule quotient_of_div)
  have p: "0 < p"
    using assms q by (simp add: a zero_less_divide_iff)
  let ?d = "bitlen p - bitlen q"
  have "of_int p / of_int q < pow2 (bitlen p) / pow2 (bitlen q - 1)"
    using p q bitlen_pow2_bounds [OF p] bitlen_pow2_bounds [OF q] pow2_pos
    by (intro frac_less) simp_all
  then have up: "a < pow2 (?d + 1)"
    by (simp add: a pow2_diff [symmetric] algebra_simps)
  have "pow2 (bitlen p - 1) / pow2 (bitlen q) < of_int p / of_int q"
    using p q bitlen_pow2_bounds [OF p] bitlen_pow2_bounds [OF q] pow2_pos
    by (intro frac_less2) simp_all
  then have lo: "pow2 (?d - 1) < a"
    by (simp add: a pow2_diff [symmetric] algebra_simps)
  have fl: "floor_log2 a = (if pow2 ?d \<le> a then ?d else ?d - 1)"
    by (simp add: floor_log2_def pq)
  show "pow2 (floor_log2 a) \<le> a"
    using lo by (simp add: fl)
  show "a < pow2 (floor_log2 a + 1)"
    using up by (simp add: fl)
qed

lemma floor_log2_unique:
  assumes "pow2 e \<le> a" and "a < pow2 (e + 1)"
  shows "floor_log2 a = e"
proof -
  have pos: "0 < a"
    using assms(1) pow2_pos [of e] by linarith
  have "pow2 e < pow2 (floor_log2 a + 1)"
    using assms(1) floor_log2_bounds(2) [OF pos] by linarith
  then have "e < floor_log2 a + 1"
    by (rule pow2_less_cancel)
  moreover have "pow2 (floor_log2 a) < pow2 (e + 1)"
    using assms(2) floor_log2_bounds(1) [OF pos] by linarith
  then have "floor_log2 a < e + 1"
    by (rule pow2_less_cancel)
  ultimately show ?thesis
    by linarith
qed

lemma floor_log2_mono:
  assumes "0 < a" and "a \<le> b"
  shows "floor_log2 a \<le> floor_log2 b"
proof -
  have "0 < b"
    using assms by linarith
  then have "pow2 (floor_log2 a) < pow2 (floor_log2 b + 1)"
    using floor_log2_bounds(1) [OF assms(1)] floor_log2_bounds(2) [of b] assms(2) by linarith
  then have "floor_log2 a < floor_log2 b + 1"
    by (rule pow2_less_cancel)
  then show ?thesis
    by linarith
qed

lemma floor_log2_ge:
  assumes "pow2 e \<le> a"
  shows "e \<le> floor_log2 a"
proof -
  have pos: "0 < a"
    using assms pow2_pos [of e] by linarith
  have "pow2 e < pow2 (floor_log2 a + 1)"
    using assms floor_log2_bounds(2) [OF pos] by linarith
  then have "e < floor_log2 a + 1"
    by (rule pow2_less_cancel)
  then show ?thesis
    by linarith
qed

lemma round_half_even_of_int: "round_half_even (of_int n) = n"
  by (simp add: round_half_even_def)

lemma round_half_even_range:
  "\<lfloor>x\<rfloor> \<le> round_half_even x \<and> round_half_even x \<le> \<lfloor>x\<rfloor> + 1"
  by (simp add: round_half_even_def Let_def)

lemma round_half_even_mono:
  assumes "x \<le> y"
  shows "round_half_even x \<le> round_half_even y"
proof (cases "\<lfloor>x\<rfloor> = \<lfloor>y\<rfloor>")
  case True
  with assms show ?thesis
    by (auto simp: round_half_even_def Let_def)
next
  case False
  then have "\<lfloor>x\<rfloor> + 1 \<le> \<lfloor>y\<rfloor>"
    using floor_mono [OF assms] by linarith
  then show ?thesis
    using round_half_even_range [of x] round_half_even_range [of y] by linarith
qed

lemma round_half_even_ge:
  assumes "of_int n \<le> x"
  shows "n \<le> round_half_even x"
  using round_half_even_mono [OF assms] by (simp add: round_half_even_of_int)

lemma round_half_even_le:
  assumes "x \<le> of_int n"
  shows "round_half_even x \<le> n"
  using round_half_even_mono [OF assms] by (simp add: round_half_even_of_int)

lemma pow2_numeral_52: "pow2 52 = of_int (2 ^ 52)"
  by (simp add: pow2_def)

lemma pow2_numeral_53: "pow2 53 = of_int (2 ^ 53)"
  by (simp add: pow2_def)

lemma round_magnitude_unfold:
  "round_magnitude a =
     of_int (round_half_even (a / pow2 (max (floor_log2 a) (- 1022) - 52)))
       * pow2 (max (floor_log2 a) (- 1022) - 52)"
  by (simp add: round_magnitude_def Let_def)

lemma round_magnitude_nonneg:
  assumes "0 \<le> a"
  shows "0 \<le> round_magnitude a"
proof -
  let ?u = "pow2 (max (floor_log2 a) (- 1022) - 52)"
  have "of_int 0 \<le> a / ?u"
    using assms pow2_pos [of "max (floor_log2 a) (- 1022) - 52"] by simp
  then have "0 \<le> round_half_even (a / ?u)"
    by (rule round_half_even_ge)
  then show ?thesis
    using pow2_pos [of "max (floor_log2 a) (- 1022) - 52"]
    by (simp add: round_magnitude_unfold)
qed

lemma round_magnitude_upper:
  assumes "0 < a"
  shows "round_magnitude a \<le> pow2 (max (floor_log2 a) (- 1022) + 1)"
proof -
  let ?E = "max (floor_log2 a) (- 1022)"
  let ?u = "pow2 (?E - 52)"
  have u: "0 < ?u"
    by (rule pow2_pos)
  have "?E + 1 = 53 + (?E - 52)"
    by linarith
  then have "pow2 (?E + 1) = pow2 (53 + (?E - 52))"
    by (rule arg_cong)
  also have "\<dots> = pow2 53 * ?u"
    by (rule pow2_add)
  finally have split: "pow2 (?E + 1) = pow2 53 * ?u" .
  have "a < pow2 (floor_log2 a + 1)"
    using assms by (rule floor_log2_bounds(2))
  also have "\<dots> \<le> pow2 (?E + 1)"
    by (rule pow2_mono) simp
  finally have "a / ?u \<le> pow2 53"
    using u by (simp add: split pos_divide_le_eq)
  then have "round_half_even (a / ?u) \<le> 2 ^ 53"
    unfolding pow2_numeral_53 by (rule round_half_even_le)
  then have "(of_int (round_half_even (a / ?u)) :: rat) \<le> of_int (2 ^ 53)"
    by (simp only: of_int_le_iff)
  then have "of_int (round_half_even (a / ?u)) * ?u \<le> pow2 53 * ?u"
    using u by (simp add: pow2_numeral_53)
  then show ?thesis
    by (simp only: round_magnitude_unfold split)
qed

lemma round_magnitude_lower:
  assumes "0 < a" and "- 1022 \<le> floor_log2 a"
  shows "pow2 (floor_log2 a) \<le> round_magnitude a"
proof -
  let ?L = "floor_log2 a"
  let ?u = "pow2 (?L - 52)"
  have E: "max ?L (- 1022) = ?L"
    using assms(2) by simp
  have u: "0 < ?u"
    by (rule pow2_pos)
  have split: "pow2 ?L = pow2 52 * ?u"
    by (simp add: pow2_add [symmetric])
  have "pow2 ?L \<le> a"
    using assms(1) by (rule floor_log2_bounds(1))
  then have "pow2 52 \<le> a / ?u"
    using u by (simp add: split pos_le_divide_eq)
  then have "2 ^ 52 \<le> round_half_even (a / ?u)"
    unfolding pow2_numeral_52 by (rule round_half_even_ge)
  then have "(of_int (2 ^ 52) :: rat) \<le> of_int (round_half_even (a / ?u))"
    by (simp only: of_int_le_iff)
  then have "pow2 52 * ?u \<le> of_int (round_half_even (a / ?u)) * ?u"
    using u by (simp add: pow2_numeral_52)
  then show ?thesis
    by (simp only: round_magnitude_unfold split [symmetric] E)
qed

lemma round_magnitude_mono:
  assumes "0 < a" and "a \<le> b"
  shows "round_magnitude a \<le> round_magnitude b"
proof -
  let ?Ea = "max (floor_log2 a) (- 1022)"
  let ?Eb = "max (floor_log2 b) (- 1022)"
  have b: "0 < b"
    using assms by linarith
  have le: "?Ea \<le> ?Eb"
    using floor_log2_mono [OF assms] by simp
  show ?thesis
  proof (cases "?Ea = ?Eb")
    case True
    let ?u = "pow2 (?Eb - 52)"
    have u: "0 < ?u"
      by (rule pow2_pos)
    have "a / ?u \<le> b / ?u"
      using assms(2) u by (simp add: divide_le_cancel)
    then have "round_half_even (a / ?u) \<le> round_half_even (b / ?u)"
      by (rule round_half_even_mono)
    then have "of_int (round_half_even (a / ?u)) * ?u \<le> of_int (round_half_even (b / ?u)) * ?u"
      using u by simp
    then show ?thesis
      by (simp only: round_magnitude_unfold True)
  next
    case False
    with le have lt: "?Ea + 1 \<le> ?Eb"
      by linarith
    then have normal: "- 1022 \<le> floor_log2 b" and Eb: "?Eb = floor_log2 b"
      by linarith+
    have "round_magnitude a \<le> pow2 (?Ea + 1)"
      using assms(1) by (rule round_magnitude_upper)
    also have "\<dots> \<le> pow2 ?Eb"
      using lt by (rule pow2_mono)
    also have "\<dots> \<le> round_magnitude b"
      unfolding Eb using b normal by (rule round_magnitude_lower)
    finally show ?thesis .
  qed
qed

lemma round_magnitude_ge_pow2:
  assumes "pow2 e \<le> a" and "- 1022 \<le> e"
  shows "pow2 e \<le> round_magnitude a"
proof -
  have a: "0 < a"
    using assms(1) pow2_pos [of e] by linarith
  have e: "e \<le> floor_log2 a"
    using assms(1) by (rule floor_log2_ge)
  then have "pow2 e \<le> pow2 (floor_log2 a)"
    by (rule pow2_mono)
  also have "\<dots> \<le> round_magnitude a"
    using a e assms(2) by (intro round_magnitude_lower) simp_all
  finally show ?thesis .
qed

lemma round_magnitude_pow2:
  assumes "- 1022 \<le> e"
  shows "round_magnitude (pow2 e) = pow2 e"
proof -
  have L: "floor_log2 (pow2 e) = e"
    by (rule floor_log2_unique) (simp_all add: pow2_strict_mono)
  have "pow2 e / pow2 (e - 52) = pow2 52"
    by (simp add: pow2_diff [symmetric])
  then have "round_half_even (pow2 e / pow2 (e - 52)) = 2 ^ 52"
    by (simp only: pow2_numeral_52 round_half_even_of_int)
  moreover have "pow2 52 * pow2 (e - 52) = pow2 e"
    by (simp add: pow2_add [symmetric])
  ultimately show ?thesis
    using assms by (simp add: round_magnitude_unfold L pow2_numeral_52)
qed

lemma round_to_double_pos:
  assumes "0 < q"
  shows "round_to_double q =
           (if pow2 1024 \<le> round_magnitude q then PosInf else Finite (round_magnitude q))"
  using assms by (simp add: round_to_double_def Let_def)

lemma round_to_double_nonneg_cases:
  assumes "0 \<le> q"
  shows "round_to_double q = PosInf \<or> (\<exists>r. 0 \<le> r \<and> round_to_double q = Finite r)"
proof (cases "q = 0")
  case True
  then show ?thesis
    by (simp add: round_to_double_def)
next
  case False
  with assms have "0 < q"
    by simp
  then show ?thesis
    using round_magnitude_nonneg [OF assms] by (simp add: round_to_double_pos)
qed

lemma round_to_double_mono:
  assumes "0 \<le> p" and "p \<le> q" and "round_to_double q = Finite y"
  shows "\<exists>x. round_to_double p = Finite x \<and> 0 \<le> x \<and> x \<le> y"
proof (cases "p = 0")
  case True
  have "0 \<le> y"
    using round_to_double_nonneg_cases [of q] assms by auto
  with True show ?thesis
    by (simp add: round_to_double_def)
next
  case False
  with assms have p: "0 < p" and q: "0 < q"
    by simp_all
  have y: "\<not> pow2 1024 \<le> round_magnitude q" "y = round_magnitude q"
    using assms(3) by (simp_all add: round_to_double_pos [OF q] split: if_splits)
  have le: "round_magnitude p \<le> round_magnitude q"
    using p assms(2) by (rule round_magnitude_mono)
  then have "round_to_double p = Finite (round_magnitude p)"
    using y(1) by (simp add: round_to_double_pos [OF p])
  then show ?thesis
    using le y(2) round_magnitude_nonneg [OF assms(1)] by simp
qed

lemma round_to_double_overflow:
  assumes "pow2 1024 \<le> q"
  shows "round_to_double q = PosInf"
proof -
  have "0 < q"
    using assms pow2_pos [of 1024] by linarith
  moreover have "pow2 1024 \<le> round_magnitude q"
    using assms by (rule round_magnitude_ge_pow2) simp
  ultimately show ?thesis
    by (simp add: round_to_double_pos)
qed

lemma round_to_double_ge:
  assumes "pow2 e \<le> q" and "- 1022 \<le> e"
  shows "round_to_double q = PosInf \<or> (\<exists>r. round_to_double q = Finite r \<and> pow2 e \<le> r)"
proof -
  have "0 < q"
    using assms(1) pow2_pos [of e] by linarith
  moreover have "pow2 e \<le> round_magnitude q"
    using assms by (rule round_magnitude_ge_pow2)
  ultimately show ?thesis
    by (simp add: round_to_double_pos)
qed

lemma is_double_pow2:
  assumes "- 1022 \<le> e" and "e < 1024"
  shows "is_double (pow2 e)"
  using assms pow2_pos [of e] pow2_strict_mono [of e 1024]
  by (simp add: is_double_def round_to_double_pos round_magnitude_pow2)

lemma is_double_0: "is_double 0"
  by (simp add: is_double_def round_to_double_def)

lemma literal_0_1: "float_literal (1 / 10) = Finite (3602879701896397 / 36028797018963968)"
  by code_simp

lemma literal_0_55: "float_literal (55 / 100) = Finite (2476979795053773 / 4503599627370496)"
  by code_simp

lemma literal_0_3: "float_literal (3 / 10) = Finite (5404319552844595 / 18014398509481984)"
  by code_simp

lemma literal_0_2: "float_literal (2 / 10) = Finite (3602879701896397 / 18014398509481984)"
  by code_simp

lemma literal_0_4: "float_literal (4 / 10) = Finite (3602879701896397 / 9007199254740992)"
  by code_simp

lemmas literals = literal_0_1 literal_0_55 literal_0_3 literal_0_2 literal_0_4

lemma lower_keys:
  "lower ''fat_loss'' = ''fat_loss''" "lower ''lose'' = ''lose''"
  "lower ''weight_loss'' = ''weight_loss''" "lower ''muscle_gain'' = ''muscle_gain''"
  "lower ''gain'' = ''gain''" "lower ''bulk'' = ''bulk''"
  "lower ''recomposition'' = ''recomposition''" "lower ''recomp'' = ''recomp''"
  by code_simp+

text \<open>The rate the source selects is the rate of the specification's table.\<close>

lemma rate_table:
  "(if lower g \<in> set [''fat_loss'', ''lose'', ''weight_loss'']
    then float_literal (55 / 100)
    else if lower g \<in> set [''muscle_gain'', ''gain'', ''bulk'']
    then float_literal (3 / 10)
    else if lower g \<in> set [''recomposition'', ''recomp'']
    then float_literal (2 / 10)
    else float_literal (4 / 10)) =
   spec_rate (Some g)"
  by (simp add: spec_rate_def ci_equal_def lower_keys)

lemma spec_rate_None: "spec_rate None = spec_rate (Some [])"
  by (simp add: spec_rate_def)

lemma spec_rate_cases:
  "spec_rate goal = float_literal (55 / 100) \<or> spec_rate goal = float_literal (3 / 10) \<or>
   spec_rate goal = float_literal (2 / 10) \<or> spec_rate goal = float_literal (4 / 10)"
  by (simp add: spec_rate_def Let_def)

lemma spec_rate_pos:
  obtains c where "0 < c" and "c \<le> 3 / 5" and "spec_rate goal = Finite c"
proof -
  have "spec_rate goal = Finite (2476979795053773 / 4503599627370496) \<or>
        spec_rate goal = Finite (5404319552844595 / 18014398509481984) \<or>
        spec_rate goal = Finite (3602879701896397 / 18014398509481984) \<or>
        spec_rate goal = Finite (3602879701896397 / 9007199254740992)"
    using spec_rate_cases [of goal] by (simp only: literals)
  then consider
    (a) "spec_rate goal = Finite (2476979795053773 / 4503599627370496)" |
    (b) "spec_rate goal = Finite (5404319552844595 / 18014398509481984)" |
    (c) "spec_rate goal = Finite (3602879701896397 / 18014398509481984)" |
    (d) "spec_rate goal = Finite (3602879701896397 / 9007199254740992)"
    by blast
  then show thesis
  proof cases
    case a
    show thesis by (rule that [OF _ _ a]) simp_all
  next
    case b
    show thesis by (rule that [OF _ _ b]) simp_all
  next
    case c
    show thesis by (rule that [OF _ _ c]) simp_all
  next
    case d
    show thesis by (rule that [OF _ _ d]) simp_all
  qed
qed

lemma fabs_cases:
  "fabs x = NaN \<or> fabs x = PosInf \<or> (\<exists>a. 0 \<le> a \<and> fabs x = Finite a)"
  by (cases x) simp_all

text \<open>Division by a positive rate and multiplication by 7 on a non-negative amount.\<close>

lemma fdiv_pos_cases:
  assumes "0 < c"
  shows "fdiv NaN (Finite c) = Inr NaN" and "fdiv PosInf (Finite c) = Inr PosInf"
    and "fdiv (Finite a) (Finite c) = Inr (round_to_double (a / c))"
  using assms by simp_all

lemma product_cases:
  assumes kg: "kg = NaN \<or> kg = PosInf \<or> (\<exists>a. 0 \<le> a \<and> kg = Finite a)" and c: "0 < c"
  obtains weeks where "fdiv kg (Finite c) = Inr weeks"
    and "fmul weeks (Finite 7) = NaN \<or> fmul weeks (Finite 7) = PosInf \<or>
         (\<exists>x. 0 \<le> x \<and> fmul weeks (Finite 7) = Finite x)"
proof -
  from kg consider "kg = NaN" | "kg = PosInf" | a where "0 \<le> a" "kg = Finite a"
    by blast
  then show thesis
  proof cases
    case 1
    show thesis
      by (rule that [of NaN]) (use c in \<open>simp_all add: 1\<close>)
  next
    case 2
    show thesis
      by (rule that [of PosInf]) (use c in \<open>simp_all add: 2\<close>)
  next
    case 3
    have q: "0 \<le> a / c"
      using 3(1) c by simp
    have d: "fdiv kg (Finite c) = Inr (round_to_double (a / c))"
      using c by (simp add: 3)
    from round_to_double_nonneg_cases [OF q] show thesis
    proof (elim disjE exE conjE)
      assume inf: "round_to_double (a / c) = PosInf"
      show thesis
        by (rule that [OF d]) (simp add: inf)
    next
      fix b
      assume b: "0 \<le> b" "round_to_double (a / c) = Finite b"
      have "0 \<le> b * 7"
        using b(1) by simp
      from round_to_double_nonneg_cases [OF this] show thesis
        by (intro that [OF d]) (auto simp: b(2))
    qed
  qed
qed

section \<open>Properties of the estimator\<close>

lemma estimate_present:
  "estimate_transformation_days (Some w) (Some t) goal =
     (if flt (fabs (fsub t w)) (float_literal (1 / 10)) then Inr 0
      else case fdiv (fabs (fsub t w)) (spec_rate goal) of
             Inl err \<Rightarrow> Inl err
           | Inr weeks_needed \<Rightarrow>
               (case py_int (fmul weeks_needed (Finite 7)) of
                  Inl err \<Rightarrow> Inl err
                | Inr n \<Rightarrow> Inr (max 7 n)))"
proof (cases goal)
  case None
  show ?thesis
    unfolding estimate_transformation_days_def None spec_rate_None
    using rate_table [of "[]"] by (simp add: Let_def)
next
  case (Some g)
  show ?thesis
    unfolding estimate_transformation_days_def Some
    using rate_table [of g] by (simp add: Let_def)
qed

lemma estimate_of_product:
  assumes "\<not> flt (fabs (fsub t w)) (float_literal (1 / 10))"
    and "fdiv (fabs (fsub t w)) (spec_rate goal) = Inr weeks"
  shows "estimate_transformation_days (Some w) (Some t) goal =
           (case py_int (fmul weeks (Finite 7)) of Inl err \<Rightarrow> Inl err | Inr n \<Rightarrow> Inr (max 7 n))"
  using assms by (simp add: estimate_present)

lemma overflow_example:
  shows "estimate_transformation_days (Some (Finite 0)) (Some (Finite (pow2 1023))) None =
     Inl OverflowError"
  and "\<not> flt (fabs (fsub (Finite (pow2 1023)) (Finite 0))) (float_literal (1 / 10))"
  and "fabs (fsub (Finite (pow2 1023)) (Finite 0)) = Finite (pow2 1023)"
proof -
  have big: "1 \<le> pow2 1023"
    using pow2_mono [of 0 1023] by (simp add: pow2_def)
  have "round_to_double (pow2 1023) = Finite (pow2 1023)"
    using is_double_pow2 [of 1023] by (simp add: is_double_def)
  then show kg: "fabs (fsub (Finite (pow2 1023)) (Finite 0)) = Finite (pow2 1023)"
    using big by simp
  show small: "\<not> flt (fabs (fsub (Finite (pow2 1023)) (Finite 0))) (float_literal (1 / 10))"
    unfolding kg literal_0_1 using big by simp
  have "spec_rate None = float_literal (4 / 10)"
    by (simp add: spec_rate_def ci_equal_def lower_def)
  then have rate: "spec_rate None = Finite (3602879701896397 / 9007199254740992)"
    by (simp only: literal_0_4)
  have "pow2 1024 = 2 * pow2 1023"
    using pow2_add [of 1 1023] by (simp add: pow2_def)
  also have "\<dots> \<le> pow2 1023 / (3602879701896397 / 9007199254740992)"
    using big by simp
  finally have "round_to_double (pow2 1023 / (3602879701896397 / 9007199254740992)) = PosInf"
    by (rule round_to_double_overflow)
  then have "fdiv (fabs (fsub (Finite (pow2 1023)) (Finite 0))) (spec_rate None) = Inr PosInf"
    unfolding kg rate by simp
  from estimate_of_product [OF small this]
  show "estimate_transformation_days (Some (Finite 0)) (Some (Finite (pow2 1023))) None =
          Inl OverflowError"
    by simp
qed

section \<open>Claims about the transformation estimator\<close>

text \<open>
  C3, as amended. The estimator returns 0 when either weight is \<^verbatim>\<open>None\<close>, and when
  \<^verbatim>\<open>abs(target - weight) < 0.1\<close>. Otherwise the rate is the one of the case-insensitive
  goal table (0.55, 0.30, 0.20, and 0.40 for anything else), the division by it never
  fails, and with \<open>p\<close> the float \<^verbatim>\<open>abs(target - weight) / rate * 7\<close>: when \<open>p\<close> is finite
  the estimator returns \<open>max 7 (floor p)\<close>; when \<open>p\<close> is an infinity it raises
  \<^verbatim>\<open>OverflowError\<close>, and when \<open>p\<close> is a NaN it raises \<^verbatim>\<open>ValueError\<close>. With goal
  \<^verbatim>\<open>"fat_loss"\<close>, weight 80 and target 70 the result is 127.
\<close>

theorem transformation_contract:
  "(weight = None \<or> target = None \<longrightarrow>
      estimate_transformation_days weight target goal = Inr 0) \<and>
   (weight = Some w \<and> target = Some t \<longrightarrow>
      (if flt (fabs (fsub t w)) (float_literal (1 / 10))
       then estimate_transformation_days weight target goal = Inr 0
       else \<exists>weeks. fdiv (fabs (fsub t w)) (spec_rate goal) = Inr weeks \<and>
              (case fmul weeks (Finite 7) of
                 Finite x \<Rightarrow>
                   estimate_transformation_days weight target goal = Inr (max 7 \<lfloor>x\<rfloor>)
               | NaN \<Rightarrow> estimate_transformation_days weight target goal = Inl ValueError
               | _ \<Rightarrow> estimate_transformation_days weight target goal = Inl OverflowError)))"
proof (intro conjI impI)
  assume "weight = None \<or> target = None"
  then show "estimate_transformation_days weight target goal = Inr 0"
    by (auto simp: estimate_transformation_days_def split: option.splits)
next
  assume wt: "weight = Some w \<and> target = Some t"
  let ?kg = "fabs (fsub t w)"
  show "if flt ?kg (float_literal (1 / 10))
        then estimate_transformation_days weight target goal = Inr 0
        else \<exists>weeks. fdiv ?kg (spec_rate goal) = Inr weeks \<and>
               (case fmul weeks (Finite 7) of
                  Finite x \<Rightarrow>
                    estimate_transformation_days weight target goal = Inr (max 7 \<lfloor>x\<rfloor>)
                | NaN \<Rightarrow> estimate_transformation_days weight target goal = Inl ValueError
                | _ \<Rightarrow> estimate_transformation_days weight target goal = Inl OverflowError)"
  proof (cases "flt ?kg (float_literal (1 / 10))")
    case True
    then show ?thesis
      using wt by (simp add: estimate_present)
  next
    case False
    obtain c where c: "0 < c" "spec_rate goal = Finite c"
      using spec_rate_pos [of goal] by blast
    obtain weeks where d: "fdiv ?kg (spec_rate goal) = Inr weeks"
      and m: "fmul weeks (Finite 7) = NaN \<or> fmul weeks (Finite 7) = PosInf \<or>
              (\<exists>x. 0 \<le> x \<and> fmul weeks (Finite 7) = Finite x)"
      using product_cases [OF fabs_cases c(1), of "fsub t w"] c(2) by metis
    have est: "estimate_transformation_days weight target goal =
                 (case py_int (fmul weeks (Finite 7)) of
                    Inl err \<Rightarrow> Inl err | Inr n \<Rightarrow> Inr (max 7 n))"
      using wt estimate_of_product [OF False d] by simp
    have "case fmul weeks (Finite 7) of
            Finite x \<Rightarrow> estimate_transformation_days weight target goal = Inr (max 7 \<lfloor>x\<rfloor>)
          | NaN \<Rightarrow> estimate_transformation_days weight target goal = Inl ValueError
          | _ \<Rightarrow> estimate_transformation_days weight target goal = Inl OverflowError"
      using m by (auto simp: est)
    with d False show ?thesis
      by auto
  qed
qed

theorem transformation_contract_witness:
  "estimate_transformation_days None (Some (Finite 70)) (Some ''fat_loss'') = Inr 0 \<and>
   estimate_transformation_days (Some (Finite 80)) None (Some ''fat_loss'') = Inr 0 \<and>
   flt (fabs (fsub (Finite (1281 / 16)) (Finite 80))) (float_literal (1 / 10)) \<and>
   estimate_transformation_days (Some (Finite 80)) (Some (Finite (1281 / 16))) (Some ''Bulk'')
     = Inr 0 \<and>
   \<not> flt (fabs (fsub (Finite 70) (Finite 80))) (float_literal (1 / 10)) \<and>
   spec_rate (Some ''fat_loss'') = float_literal (55 / 100) \<and>
   estimate_transformation_days (Some (Finite 80)) (Some (Finite 70)) (Some ''fat_loss'')
     = Inr 127 \<and>
   \<not> flt (fabs (fsub PosInf (Finite 80))) (float_literal (1 / 10)) \<and>
   estimate_transformation_days (Some (Finite 80)) (Some PosInf) (Some ''fat_loss'')
     = Inl OverflowError"
proof -
  have a: "estimate_transformation_days None (Some (Finite 70)) (Some ''fat_loss'') = Inr 0"
    using transformation_contract [of None "Some (Finite 70)" "Some ''fat_loss''"] by simp
  have b: "estimate_transformation_days (Some (Finite 80)) None (Some ''fat_loss'') = Inr 0"
    using transformation_contract [of "Some (Finite 80)" None "Some ''fat_loss''"] by simp
  have c1: "flt (fabs (fsub (Finite (1281 / 16)) (Finite 80))) (float_literal (1 / 10))"
    by code_simp
  have c: "estimate_transformation_days (Some (Finite 80)) (Some (Finite (1281 / 16)))
             (Some ''Bulk'') = Inr 0"
    using transformation_contract [of "Some (Finite 80)" "Some (Finite (1281 / 16))"
        "Some ''Bulk''" "Finite 80" "Finite (1281 / 16)"]
    by (simp only: c1 if_True simp_thms)
  have d1: "\<not> flt (fabs (fsub (Finite 70) (Finite 80))) (float_literal (1 / 10))"
    by code_simp
  have d2: "fdiv (fabs (fsub (Finite 70) (Finite 80))) (spec_rate (Some ''fat_loss'')) =
              Inr (Finite (2558863424642327 / 140737488355328))"
    by code_simp
  have d3: "fmul (Finite (2558863424642327 / 140737488355328)) (Finite 7) =
              Finite (559751374140509 / 4398046511104)"
    by code_simp
  have d4: "max 7 \<lfloor>559751374140509 / 4398046511104 :: rat\<rfloor> = 127"
    by code_simp
  have d: "estimate_transformation_days (Some (Finite 80)) (Some (Finite 70))
             (Some ''fat_loss'') = Inr 127"
    using transformation_contract [of "Some (Finite 80)" "Some (Finite 70)"
        "Some ''fat_loss''" "Finite 80" "Finite 70"]
    by (simp only: d1 d2 if_False simp_thms sum.inject) (auto simp only: d3 d4 pyfloat.case)
  have r: "spec_rate (Some ''fat_loss'') = float_literal (55 / 100)"
    by (simp add: spec_rate_def ci_equal_def)
  have e1: "\<not> flt (fabs (fsub PosInf (Finite 80))) (float_literal (1 / 10))"
    by (simp add: literal_0_1)
  have e2: "fdiv (fabs (fsub PosInf (Finite 80))) (spec_rate (Some ''fat_loss'')) = Inr PosInf"
    unfolding r literal_0_55 by simp
  have e3: "fmul PosInf (Finite 7) = PosInf"
    by simp
  have e: "estimate_transformation_days (Some (Finite 80)) (Some PosInf) (Some ''fat_loss'')
             = Inl OverflowError"
    using transformation_contract [of "Some (Finite 80)" "Some PosInf"
        "Some ''fat_loss''" "Finite 80" PosInf]
    by (simp only: e1 e2 if_False simp_thms sum.inject) (auto simp only: e3 pyfloat.case)
  from a b c1 c d1 r d e1 e show ?thesis
    by blast
qed

text \<open>
  C3 as stated promises a returned number for all inputs. For the doubles
  \<open>weight = 0.0\<close> and \<open>target = 2.0 ** 1023\<close> the difference is not below 0.1, the
  division by 0.4 overflows to infinity, and \<^verbatim>\<open>int\<close> raises \<^verbatim>\<open>OverflowError\<close>.
\<close>

theorem transformation_contract_counterexample:
  "is_double 0 \<and> is_double (pow2 1023) \<and>
   \<not> flt (fabs (fsub (Finite (pow2 1023)) (Finite 0))) (float_literal (1 / 10)) \<and>
   estimate_transformation_days (Some (Finite 0)) (Some (Finite (pow2 1023))) None =
     Inl OverflowError"
  using is_double_0 is_double_pow2 [of 1023] overflow_example(1,2) by simp

text \<open>
  C9, as amended. For a fixed goal and two pairs with present weights, both with
  \<^verbatim>\<open>abs(target - weight) >= 0.1\<close>, the first pair's difference at least the second's:
  whenever the call on the first pair returns, the call on the second pair returns too,
  and the first result is at least the second.
\<close>

theorem estimate_monotone:
  assumes big1: "fle (float_literal (1 / 10)) (fabs (fsub t1 w1))"
    and big2: "fle (float_literal (1 / 10)) (fabs (fsub t2 w2))"
    and le: "fle (fabs (fsub t2 w2)) (fabs (fsub t1 w1))"
    and ret: "estimate_transformation_days (Some w1) (Some t1) goal = Inr d1"
  shows "\<exists>d2. estimate_transformation_days (Some w2) (Some t2) goal = Inr d2 \<and> d2 \<le> d1"
proof -
  let ?k1 = "fabs (fsub t1 w1)" and ?k2 = "fabs (fsub t2 w2)"
  obtain c where c: "0 < c" "spec_rate goal = Finite c"
    using spec_rate_pos [of goal] by blast
  have n1: "\<not> flt ?k1 (float_literal (1 / 10))"
    using big1 by (cases ?k1) (auto simp: literal_0_1)
  have n2: "\<not> flt ?k2 (float_literal (1 / 10))"
    using big2 by (cases ?k2) (auto simp: literal_0_1)
  have e1: "Inr d1 = (case py_int (fmul weeks (Finite 7)) of
                Inl err \<Rightarrow> Inl err | Inr n \<Rightarrow> Inr (max 7 n))"
    if "fdiv ?k1 (Finite c) = Inr weeks" for weeks
    using estimate_of_product [OF n1, of goal weeks] that ret c(2) by simp
  obtain a1 where a1: "?k1 = Finite a1" "0 \<le> a1"
  proof (cases ?k1)
    case (Finite a)
    then show ?thesis
      using that fabs_cases [of "fsub t1 w1"] by auto
  next
    case PosInf
    then have "fdiv ?k1 (Finite c) = Inr PosInf"
      using c(1) by simp
    from e1 [OF this] show ?thesis
      by simp
  next
    case NegInf
    then show ?thesis
      using fabs_cases [of "fsub t1 w1"] by simp
  next
    case NaN
    then show ?thesis
      using big1 by (simp add: literal_0_1)
  qed
  have div1: "fdiv ?k1 (Finite c) = Inr (round_to_double (a1 / c))"
    using a1(1) c(1) by simp
  have est1: "Inr d1 = (case py_int (fmul (round_to_double (a1 / c)) (Finite 7)) of
                Inl err \<Rightarrow> Inl err | Inr n \<Rightarrow> Inr (max 7 n))"
    using div1 by (rule e1)
  have q1: "0 \<le> a1 / c"
    using a1(2) c(1) by simp
  obtain b1 where b1: "round_to_double (a1 / c) = Finite b1" "0 \<le> b1"
    using round_to_double_nonneg_cases [OF q1] est1 by auto
  have p1: "0 \<le> b1 * 7"
    using b1(2) by simp
  obtain x1 where x1: "round_to_double (b1 * 7) = Finite x1" "0 \<le> x1"
    using round_to_double_nonneg_cases [OF p1] est1 by (auto simp: b1(1))
  have d1: "d1 = max 7 \<lfloor>x1\<rfloor>"
    using est1 x1 by (simp add: b1(1))
  obtain a2 where a2: "?k2 = Finite a2" "0 \<le> a2" "a2 \<le> a1"
    using le fabs_cases [of "fsub t2 w2"] big2 unfolding a1(1)
    by (cases ?k2) (auto simp: literal_0_1)
  have q2: "0 \<le> a2 / c" "a2 / c \<le> a1 / c"
    using a2(2,3) c(1) by (simp_all add: divide_right_mono)
  obtain b2 where b2: "round_to_double (a2 / c) = Finite b2" "0 \<le> b2" "b2 \<le> b1"
    using round_to_double_mono [OF q2 b1(1)] by blast
  have p2: "0 \<le> b2 * 7" "b2 * 7 \<le> b1 * 7"
    using b2(2,3) by simp_all
  obtain x2 where x2: "round_to_double (b2 * 7) = Finite x2" "0 \<le> x2" "x2 \<le> x1"
    using round_to_double_mono [OF p2 x1(1)] by blast
  have "fdiv ?k2 (spec_rate goal) = Inr (Finite b2)"
    using a2(1) c b2(1) by simp
  from estimate_of_product [OF n2 this]
  have "estimate_transformation_days (Some w2) (Some t2) goal = Inr (max 7 \<lfloor>x2\<rfloor>)"
    using x2(1,2) by simp
  moreover have "max 7 \<lfloor>x2\<rfloor> \<le> d1"
    unfolding d1 using floor_mono [OF x2(3)] by linarith
  ultimately show ?thesis
    by blast
qed

theorem estimate_monotone_witness:
  "fle (float_literal (1 / 10)) (fabs (fsub (Finite 70) (Finite 80))) \<and>
   fle (float_literal (1 / 10)) (fabs (fsub (Finite 75) (Finite 80))) \<and>
   fle (fabs (fsub (Finite 75) (Finite 80))) (fabs (fsub (Finite 70) (Finite 80))) \<and>
   estimate_transformation_days (Some (Finite 80)) (Some (Finite 70)) (Some ''fat_loss'')
     = Inr 127 \<and>
   estimate_transformation_days (Some (Finite 80)) (Some (Finite 75)) (Some ''fat_loss'')
     = Inr 63 \<and>
   (63 :: int) \<le> 127"
proof -
  have h1: "fle (float_literal (1 / 10)) (fabs (fsub (Finite 70) (Finite 80)))"
    by code_simp
  have h2: "fle (float_literal (1 / 10)) (fabs (fsub (Finite 75) (Finite 80)))"
    by code_simp
  have h3: "fle (fabs (fsub (Finite 75) (Finite 80))) (fabs (fsub (Finite 70) (Finite 80)))"
    by code_simp
  have h4: "estimate_transformation_days (Some (Finite 80)) (Some (Finite 70))
              (Some ''fat_loss'') = Inr 127"
    by code_simp
  have v: "estimate_transformation_days (Some (Finite 80)) (Some (Finite 75))
              (Some ''fat_loss'') = Inr 63"
    by code_simp
  obtain d2 where "estimate_transformation_days (Some (Finite 80)) (Some (Finite 75))
                     (Some ''fat_loss'') = Inr d2" and "d2 \<le> 127"
    using estimate_monotone [OF h1 h2 h3 h4] by blast
  then have "(63 :: int) \<le> 127"
    unfolding v by (simp only: sum.inject)
  with h1 h2 h3 h4 v show ?thesis
    by blast
qed

text \<open>
  C9 as stated compares two returned numbers for any such pairs. With the doubles
  \<open>(0.0, 2.0 ** 1023)\<close> and \<open>(0.0, 1.0)\<close> the hypotheses hold, the second call returns
  17, and the first call raises \<^verbatim>\<open>OverflowError\<close>: it has no value to compare.
\<close>

theorem estimate_monotone_counterexample:
  "fle (float_literal (1 / 10)) (fabs (fsub (Finite (pow2 1023)) (Finite 0))) \<and>
   fle (float_literal (1 / 10)) (fabs (fsub (Finite 1) (Finite 0))) \<and>
   fle (fabs (fsub (Finite 1) (Finite 0))) (fabs (fsub (Finite (pow2 1023)) (Finite 0))) \<and>
   estimate_transformation_days (Some (Finite 0)) (Some (Finite (pow2 1023))) None
     = Inl OverflowError \<and>
   estimate_transformation_days (Some (Finite 0)) (Some (Finite 1)) None = Inr 17"
proof -
  have big: "1 \<le> pow2 1023"
    using pow2_mono [of 0 1023] by (simp add: pow2_def)
  have one: "fabs (fsub (Finite 1) (Finite 0)) = Finite 1"
    by code_simp
  have h1: "fle (float_literal (1 / 10)) (fabs (fsub (Finite (pow2 1023)) (Finite 0)))"
    unfolding overflow_example(3) literal_0_1 using big by simp
  have h2: "fle (float_literal (1 / 10)) (fabs (fsub (Finite 1) (Finite 0)))"
    unfolding one literal_0_1 by simp
  have h3: "fle (fabs (fsub (Finite 1) (Finite 0))) (fabs (fsub (Finite (pow2 1023)) (Finite 0)))"
    unfolding one overflow_example(3) using big by simp
  have v: "estimate_transformation_days (Some (Finite 0)) (Some (Finite 1)) None = Inr 17"
    by code_simp
  from h1 h2 h3 overflow_example(1) v show ?thesis
    by blast
qed

end
